theory Spec2Isabelle
  imports Complex_Main "HOL-Library.Sublist"
begin

section \<open>Python string primitives\<close>

text \<open>
  Strings are lists of characters. The model covers ASCII text: \<open>isspace\<close> lists the
  ASCII characters for which Python's \<^verbatim>\<open>str.isspace\<close> holds, and \<open>lower_char\<close> maps
  \<^verbatim>\<open>A..Z\<close> to \<^verbatim>\<open>a..z\<close> and leaves every other character alone. The canned answer
  strings that contain accented letters are written as their UTF-8 bytes; they are only
  compared, never split or lowercased.
\<close>

definition nl :: char where
  "nl = CHR 0x0A"

definition isspace :: "char \<Rightarrow> bool" where
  "isspace c \<longleftrightarrow>
     c \<in> set [CHR 0x09, CHR 0x0A, CHR 0x0B, CHR 0x0C, CHR 0x0D,
               CHR 0x1C, CHR 0x1D, CHR 0x1E, CHR 0x1F, CHR 0x20]"

definition lower_char :: "char \<Rightarrow> char" where
  "lower_char c =
     (case map_of (zip ''ABCDEFGHIJKLMNOPQRSTUVWXYZ'' ''abcdefghijklmnopqrstuvwxyz'') c of
        None \<Rightarrow> c
      | Some d \<Rightarrow> d)"

text \<open>\<^verbatim>\<open>s.lower()\<close>\<close>

definition str_lower :: "string \<Rightarrow> string" where
  "str_lower s = map lower_char s"

text \<open>\<^verbatim>\<open>s.strip()\<close>: whitespace removed at both ends.\<close>

definition str_strip :: "string \<Rightarrow> string" where
  "str_strip s = rev (dropWhile isspace (rev (dropWhile isspace s)))"

text \<open>
  \<^verbatim>\<open>s.split()\<close> with no separator: the maximal runs of non-whitespace characters, in
  order. \<open>cur\<close> is the word being read.
\<close>

fun split_acc :: "string \<Rightarrow> string \<Rightarrow> string list" where
  "split_acc cur [] = (if cur = [] then [] else [cur])"
| "split_acc cur (c # cs) =
     (if isspace c then (if cur = [] then split_acc [] cs else cur # split_acc [] cs)
      else split_acc (cur @ [c]) cs)"

definition str_split :: "string \<Rightarrow> string list" where
  "str_split s = split_acc [] s"

text \<open>\<^verbatim>\<open>w in s\<close> on strings: \<open>w\<close> occurs in \<open>s\<close> as a contiguous substring.\<close>

fun str_contains :: "string \<Rightarrow> string \<Rightarrow> bool" where
  "str_contains w [] = (w = [])"
| "str_contains w (c # cs) = (prefix w (c # cs) \<or> str_contains w cs)"

text \<open>\<^verbatim>\<open>sep.join(xs)\<close>\<close>

fun str_join :: "string \<Rightarrow> string list \<Rightarrow> string" where
  "str_join sep [] = []"
| "str_join sep [x] = x"
| "str_join sep (x # y # ys) = x @ sep @ str_join sep (y # ys)"

text \<open>
  \<^verbatim>\<open>xs[:k]\<close> for a Python integer \<open>k\<close>: the first \<open>k\<close> elements when \<open>k \<ge> 0\<close>, all but
  the last \<open>-k\<close> elements when \<open>k < 0\<close>.
\<close>

definition py_slice_to :: "int \<Rightarrow> 'a list \<Rightarrow> 'a list" where
  "py_slice_to k xs = (if 0 \<le> k then take (nat k) xs else take (length xs - nat (- k)) xs)"

section \<open>Knowledge store: keyword search\<close>

text \<open>A chunk is the dictionary \<^verbatim>\<open>{'content': ..., 'source': ..., 'path': ...}\<close>.\<close>

record chunk =
  content :: string
  source :: string
  path :: string

text \<open>
  \<^verbatim>\<open>query_words = set(query.lower().split())\<close>. The set is kept as a duplicate-free
  list; the code only counts over it, so the iteration order does not matter.
\<close>

definition query_words :: "string \<Rightarrow> string list" where
  "query_words query = remdups (str_split (str_lower query))"

text \<open>\<^verbatim>\<open>score = sum(1 for word in query_words if word in content_lower)\<close>\<close>

definition chunk_score :: "string list \<Rightarrow> chunk \<Rightarrow> nat" where
  "chunk_score qw c =
     (let content_lower = str_lower (content c)
      in length (filter (\<lambda>word. str_contains word content_lower) qw))"

text \<open>
  \<^verbatim>\<open>_simple_search\<close>: score each chunk, keep those with a positive score, sort with
  \<^verbatim>\<open>sort(reverse=True, key=lambda x: x[0])\<close> and slice. Python's sort is stable, also
  with \<^verbatim>\<open>reverse=True\<close>, so it is the stable sort on the negated score.
\<close>

definition scored_chunks :: "chunk list \<Rightarrow> string list \<Rightarrow> (nat \<times> chunk) list" where
  "scored_chunks chunks qw =
     filter (\<lambda>(score, c). score > 0) (map (\<lambda>c. (chunk_score qw c, c)) chunks)"

definition simple_search :: "chunk list \<Rightarrow> string \<Rightarrow> int \<Rightarrow> chunk list" where
  "simple_search chunks query top_k =
     (let qw = query_words query;
          sorted_chunks = sort_key (\<lambda>x. - int (fst x)) (scored_chunks chunks qw)
      in map snd (py_slice_to top_k sorted_chunks))"

section \<open>Knowledge store: chunking\<close>

text \<open>
  \<^verbatim>\<open>re.split(r'\n\n+', text)\<close>: the pieces of the text between the maximal runs of two
  or more newlines. \<open>cur\<close> is the piece being read; \<open>skipping\<close> holds while the rest of
  a separator run is consumed. A separator at either end leaves an empty piece there, as
  in Python.
\<close>

fun re_split_aux :: "bool \<Rightarrow> string \<Rightarrow> string \<Rightarrow> string list" where
  "re_split_aux skipping cur [] = [cur]"
| "re_split_aux skipping cur (c # cs) =
     (if c = nl \<and> skipping then re_split_aux True cur cs
      else if c = nl \<and> take 1 cs = [nl] then cur # re_split_aux True [] cs
      else re_split_aux False (cur @ [c]) cs)"

definition re_split :: "string \<Rightarrow> string list" where
  "re_split text = re_split_aux False [] text"

text \<open>
  The loop of \<^verbatim>\<open>_split_text\<close> over the paragraphs. The state is
  \<open>(chunks, current_chunk)\<close>.
\<close>

fun split_loop :: "int \<Rightarrow> string list \<Rightarrow> string list \<times> string \<Rightarrow> string list \<times> string" where
  "split_loop chunk_size [] st = st"
| "split_loop chunk_size (p # paragraphs) (chunks, current_chunk) =
     (let para = str_strip p in
      if para = [] then split_loop chunk_size paragraphs (chunks, current_chunk)
      else if int (length current_chunk) + int (length para) < chunk_size
        then split_loop chunk_size paragraphs (chunks, current_chunk @ para @ [nl, nl])
      else split_loop chunk_size paragraphs
             (if current_chunk \<noteq> [] then chunks @ [str_strip current_chunk] else chunks,
              para @ [nl, nl]))"

text \<open>\<^verbatim>\<open>_split_text(text, chunk_size)\<close>; the parameter \<^verbatim>\<open>overlap\<close> is never read.\<close>

definition split_text :: "string \<Rightarrow> int \<Rightarrow> string list" where
  "split_text text chunk_size =
     (let paragraphs = re_split text;
          (chunks, current_chunk) = split_loop chunk_size paragraphs ([], []);
          chunks = (if current_chunk \<noteq> [] then chunks @ [str_strip current_chunk] else chunks)
      in if chunks \<noteq> [] then chunks else [text])"

text \<open>A text has a blank-line break when two newlines follow each other in it.\<close>

definition has_blank_line :: "string \<Rightarrow> bool" where
  "has_blank_line text = str_contains [nl, nl] text"

subsection \<open>The chunking in the words of the specification\<close>

text \<open>
  The specification describes the chunking by paragraphs, not by the string the code
  keeps: the paragraphs between the blank-line breaks are trimmed and the empty ones
  skipped; the paragraphs that remain are accumulated in a buffer, separated by a blank
  line; when appending the next paragraph would make the buffer's text reach or exceed
  \<open>chunk_size\<close> characters, the buffer is flushed as a chunk, if it holds anything, and
  a new buffer starts with that paragraph; after the last paragraph the buffer is flushed
  if it is not empty; and when no chunk results the whole text is the one chunk. The
  definitions below follow these words, with the buffer as the list of its paragraphs;
  they are compared with \<open>split_text\<close> in the claims.
\<close>

definition spec_paragraphs :: "string \<Rightarrow> string list" where
  "spec_paragraphs text = filter (\<lambda>p. p \<noteq> []) (map str_strip (re_split text))"

fun spec_groups :: "int \<Rightarrow> string list \<Rightarrow> string list \<Rightarrow> string list list" where
  "spec_groups chunk_size buffer [] = (if buffer \<noteq> [] then [buffer] else [])"
| "spec_groups chunk_size buffer (p # ps) =
     (if chunk_size \<le> int (length (str_join [nl, nl] (buffer @ [p])))
      then (if buffer \<noteq> [] then [buffer] else []) @ spec_groups chunk_size [p] ps
      else spec_groups chunk_size (buffer @ [p]) ps)"

definition spec_split_text :: "string \<Rightarrow> int \<Rightarrow> string list" where
  "spec_split_text text chunk_size =
     (let groups = spec_groups chunk_size [] (spec_paragraphs text)
      in if groups = [] then [text] else map (str_join [nl, nl]) groups)"

section \<open>Retrieval engine\<close>

text \<open>
  Exceptions derived from \<^verbatim>\<open>Exception\<close>, as values. \<open>BackendError\<close> stands for whatever
  the generation backend, the transcription model or the base64 decoder raises.
\<close>

datatype py_error = AttributeError | TypeError | BackendError string

record llm_config =
  model_name :: string
  temperature :: rat
  max_tokens :: int

record config =
  llm :: llm_config
  languages :: "string list"

text \<open>The defaults of \<^verbatim>\<open>LLMConfig\<close> and \<^verbatim>\<open>SupportedLanguages\<close>.\<close>

definition default_config :: config where
  "default_config =
     \<lparr>llm = \<lparr>model_name = ''llama3.2'', temperature = 3 / 10, max_tokens = 512\<rparr>,
      languages = [''en'', ''es'', ''fr'', ''de'', ''it'', ''pt'',
                   ''hi'', ''zh'', ''ja'', ''ko'', ''ar'', ''ru'']\<rparr>"

text \<open>
  One call \<^verbatim>\<open>ollama.generate(model=..., prompt=..., options={...})\<close>. The key
  \<^verbatim>\<open>num_predict\<close> is absent from the options of the ungrounded call.
\<close>

record gen_call =
  call_model :: string
  call_prompt :: string
  opt_temperature :: rat
  opt_num_predict :: "int option"

text \<open>
  The generation backend: the text \<^verbatim>\<open>response['response']\<close>, or the exception raised
  by the call or by reading the response.
\<close>

type_synonym backend = "gen_call \<Rightarrow> py_error + string"

record document =
  page_content :: string
  metadata :: "(string \<times> string) list"

definition fallback_en :: string where
  "fallback_en =
     ''I apologize, but I'm having trouble answering that. Please try rephrasing your question.''"

definition fallback_es :: string where
  "fallback_es =
     ''Disculpe, tengo problemas para responder eso. Por favor, reformule su pregunta.''"

definition fallback_fr :: string where
  "fallback_fr =
     ''Je m'excuse, j'ai du mal '' @ [CHR 0xC3, CHR 0xA0] @ '' r'' @ [CHR 0xC3, CHR 0xA9] @
     ''pondre '' @ [CHR 0xC3, CHR 0xA0] @ '' cela. Veuillez reformuler votre question.''"

text \<open>\<^verbatim>\<open>_get_fallback_response\<close>: \<^verbatim>\<open>responses.get(language, responses["en"])\<close>\<close>

definition get_fallback_response :: "string \<Rightarrow> string" where
  "get_fallback_response language =
     (let responses = [(''en'', fallback_en), (''es'', fallback_es), (''fr'', fallback_fr)]
      in case map_of responses language of None \<Rightarrow> fallback_en | Some r \<Rightarrow> r)"

definition direct_apology :: string where
  "direct_apology =
     ''I apologize, but I'm having trouble processing your request right now.''"

definition direct_prompt :: "string \<Rightarrow> string" where
  "direct_prompt question =
     ''You are a helpful customer support agent. Answer this question professionally:'' @
     [nl, nl] @ ''Question: '' @ question @ [nl, nl] @ ''Answer:''"

text \<open>The backend call of \<^verbatim>\<open>_get_direct_answer\<close>, at the literal temperature \<^verbatim>\<open>0.7\<close>.\<close>

definition direct_call :: "config \<Rightarrow> string \<Rightarrow> gen_call" where
  "direct_call cfg question =
     \<lparr>call_model = model_name (llm cfg), call_prompt = direct_prompt question,
      opt_temperature = 7 / 10, opt_num_predict = None\<rparr>"

text \<open>
  \<^verbatim>\<open>_get_direct_answer\<close>: the bare \<^verbatim>\<open>except\<close> turns every failure into the apology.
  The first component lists the backend calls made.
\<close>

definition get_direct_answer :: "config \<Rightarrow> backend \<Rightarrow> string \<Rightarrow> gen_call list \<times> string" where
  "get_direct_answer cfg generate question =
     (let call = direct_call cfg question
      in ([call],
          case generate call of
            Inl e \<Rightarrow> direct_apology
          | Inr response \<Rightarrow> str_strip response))"

definition grounded_prompt :: "string \<Rightarrow> string \<Rightarrow> string" where
  "grounded_prompt context question =
     ''You are a helpful customer support agent. Use the following context to answer the question.'' @
     [nl, nl] @ ''Context from knowledge base:'' @ [nl] @ context @ [nl, nl] @
     ''Customer Question: '' @ question @ [nl, nl] @
     ''Instructions:'' @ [nl] @
     ''- Be polite and professional'' @ [nl] @
     ''- Answer based on the context provided'' @ [nl] @
     ''- If you don't know, say '' @ [CHR 0x22] @
     ''I don't have that information in my knowledge base'' @ [CHR 0x22] @ [nl] @
     ''- Keep answers clear and concise'' @ [nl, nl] @
     ''Your Response:''"

text \<open>
  The backend call of the grounded path of \<^verbatim>\<open>query\<close>: the contents of the chunks
  found, joined by blank lines, are the context; temperature and token limit come from
  the configuration.
\<close>

definition grounded_call :: "config \<Rightarrow> chunk list \<Rightarrow> string \<Rightarrow> gen_call" where
  "grounded_call cfg relevant_chunks question =
     (let context = str_join [nl, nl] (map content relevant_chunks)
      in \<lparr>call_model = model_name (llm cfg),
          call_prompt = grounded_prompt context question,
          opt_temperature = temperature (llm cfg),
          opt_num_predict = Some (max_tokens (llm cfg))\<rparr>)"

text \<open>
  The body of the \<^verbatim>\<open>try\<close> block of \<^verbatim>\<open>query\<close>: \<open>Inl\<close> is an exception leaving the
  block. The search and the prompt construction cannot raise on well-typed chunks, so
  the one raising step is the grounded backend call.
\<close>

definition query_try ::
  "config \<Rightarrow> backend \<Rightarrow> chunk list \<Rightarrow> string \<Rightarrow>
     gen_call list \<times> (py_error + string \<times> document list)" where
  "query_try cfg generate chunks question =
     (let relevant_chunks = simple_search chunks question 3 in
      if relevant_chunks = [] then
        (let (calls, answer) = get_direct_answer cfg generate question
         in (calls, Inr (answer, [])))
      else
        (let call = grounded_call cfg relevant_chunks question
         in ([call],
             case generate call of
               Inl e \<Rightarrow> Inl e
             | Inr response \<Rightarrow>
                 Inr (str_strip response,
                      map (\<lambda>c. \<lparr>page_content = content c,
                                 metadata = [(''source'', source c)]\<rparr>) relevant_chunks))))"

text \<open>
  \<^verbatim>\<open>query\<close>: the \<^verbatim>\<open>except Exception\<close> handler answers with the fallback for the
  language and no sources.
\<close>

definition query ::
  "config \<Rightarrow> backend \<Rightarrow> chunk list \<Rightarrow> string \<Rightarrow> string \<Rightarrow>
     gen_call list \<times> (string \<times> document list)" where
  "query cfg generate chunks question language =
     (let (calls, r) = query_try cfg generate chunks question
      in (calls,
          case r of
            Inl e \<Rightarrow> (get_fallback_response language, [])
          | Inr res \<Rightarrow> res))"

section \<open>Audio handler\<close>

text \<open>
  What lies outside the code: the generation backend, the clock, the base64 decoder and
  the Whisper model. \<open>now\<close> is the reading \<^verbatim>\<open>datetime.now().isoformat()\<close> and
  \<open>processing_time_ms\<close> the rounded elapsed time of a text query; no operation below
  depends on either, so one reading per frame is taken. \<open>whisper_model\<close> is \<open>None\<close>
  while no model is loaded; a loaded model returns the text and, when the result has one,
  the detected language.
\<close>

record env =
  generate :: backend
  now :: string
  processing_time_ms :: rat
  b64decode :: "string \<Rightarrow> py_error + string"
  audio_enabled :: bool
  whisper_model :: "(string \<Rightarrow> string option \<Rightarrow> py_error + string \<times> string option) option"

text \<open>
  \<^verbatim>\<open>transcribe_audio\<close>: the empty text and \<^verbatim>\<open>"unknown"\<close> when audio is disabled or
  the transcription raises.
\<close>

definition transcribe_audio :: "env \<Rightarrow> string \<Rightarrow> string option \<Rightarrow> string \<times> string" where
  "transcribe_audio e audio_data lang =
     (case whisper_model e of
        None \<Rightarrow> ([], ''unknown'')
      | Some transcribe \<Rightarrow>
          if \<not> audio_enabled e then ([], ''unknown'')
          else (case transcribe audio_data lang of
                  Inl err \<Rightarrow> ([], ''unknown'')
                | Inr (text, detected) \<Rightarrow>
                    (str_strip text,
                     case detected of None \<Rightarrow> ''unknown'' | Some l \<Rightarrow> l)))"

section \<open>Decoded JSON messages\<close>

text \<open>
  The value \<^verbatim>\<open>json.loads\<close> returns. An object is the association list of its dictionary,
  each key once.
\<close>

datatype json =
    JNull
  | JBool bool
  | JNum int
  | JStr string
  | JArr "json list"
  | JObj "(string \<times> json) list"

text \<open>\<^verbatim>\<open>d.get(key, default)\<close>\<close>

definition dict_get :: "(string \<times> json) list \<Rightarrow> string \<Rightarrow> json \<Rightarrow> json" where
  "dict_get d key dflt = (case map_of d key of None \<Rightarrow> dflt | Some v \<Rightarrow> v)"

text \<open>Python's truth value of a decoded JSON value.\<close>

fun truthy :: "json \<Rightarrow> bool" where
  "truthy JNull = False"
| "truthy (JBool b) = b"
| "truthy (JNum n) = (n \<noteq> 0)"
| "truthy (JStr s) = (s \<noteq> [])"
| "truthy (JArr xs) = (xs \<noteq> [])"
| "truthy (JObj kvs) = (kvs \<noteq> [])"

text \<open>\<^verbatim>\<open>base64_to_audio\<close>: \<^verbatim>\<open>base64.b64decode\<close> raises on anything but a string.\<close>

definition base64_to_audio :: "env \<Rightarrow> json \<Rightarrow> py_error + string" where
  "base64_to_audio e v = (case v of JStr b \<Rightarrow> b64decode e b | _ \<Rightarrow> Inl TypeError)"

section \<open>Session registry\<close>

type_synonym session_id = string

text \<open>A transport handle (the \<^verbatim>\<open>websocket\<close> object) is a number.\<close>

type_synonym websocket = nat

record session =
  connected_at :: string
  language :: string
  message_count :: int

text \<open>
  The messages the server sends are dictionaries with a \<^verbatim>\<open>type\<close> field; one
  constructor for each shape the code builds. \<open>Welcome\<close> and \<open>System\<close> both carry the type
  \<^verbatim>\<open>system\<close>.
\<close>

datatype frame =
    Welcome session_id string string "string list"
  | System string string
  | Typing bool
  | TextResponse string "(string \<times> string) list" string rat
  | Transcription string string
  | Error string string

fun frame_type :: "frame \<Rightarrow> string" where
  "frame_type (Welcome sid message timestamp supported) = ''system''"
| "frame_type (System message lang) = ''system''"
| "frame_type (Typing is_typing) = ''typing''"
| "frame_type (TextResponse answer sources timestamp ms) = ''text''"
| "frame_type (Transcription text detected) = ''transcription''"
| "frame_type (Error message timestamp) = ''error''"

text \<open>
  The state of the server: the two dictionaries of \<^verbatim>\<open>ConnectionManager\<close>, and the
  effects on the collaborators as logs: \<open>sent\<close> lists the frames handed to
  \<^verbatim>\<open>websocket.send\<close> in order (a failing send is caught and logged by the code, so it
  changes nothing else), \<open>rag_queries\<close> the calls of \<^verbatim>\<open>rag_engine.query\<close>, and
  \<open>backend_calls\<close> the calls of the generation backend. The calls of the logger are left
  out: its methods accept the arguments every call site passes, and writing a log line
  is taken not to fail.
\<close>

record server =
  active_connections :: "session_id \<rightharpoonup> websocket"
  session_metadata :: "session_id \<rightharpoonup> session"
  sent :: "(websocket \<times> frame) list"
  rag_queries :: "(string \<times> string) list"
  backend_calls :: "gen_call list"

text \<open>\<^verbatim>\<open>connect\<close>; \<open>new_id\<close> is the value of \<^verbatim>\<open>str(uuid.uuid4())\<close>.\<close>

definition connect :: "env \<Rightarrow> session_id \<Rightarrow> websocket \<Rightarrow> server \<Rightarrow> server" where
  "connect e new_id ws s =
     s\<lparr>active_connections := (active_connections s)(new_id \<mapsto> ws),
       session_metadata := (session_metadata s)(new_id \<mapsto>
         \<lparr>connected_at = now e, language = ''en'', message_count = 0\<rparr>)\<rparr>"

definition disconnect :: "session_id \<Rightarrow> server \<Rightarrow> server" where
  "disconnect sid s =
     (let s1 = (if sid \<in> dom (active_connections s)
                then s\<lparr>active_connections := (active_connections s)(sid := None)\<rparr>
                else s)
      in if sid \<in> dom (session_metadata s1)
         then s1\<lparr>session_metadata := (session_metadata s1)(sid := None)\<rparr>
         else s1)"

definition send_message :: "session_id \<Rightarrow> frame \<Rightarrow> server \<Rightarrow> server" where
  "send_message sid message s =
     (case active_connections s sid of
        None \<Rightarrow> s
      | Some ws \<Rightarrow> s\<lparr>sent := sent s @ [(ws, message)]\<rparr>)"

definition get_session_language :: "server \<Rightarrow> session_id \<Rightarrow> string" where
  "get_session_language s sid =
     (case session_metadata s sid of None \<Rightarrow> ''en'' | Some m \<Rightarrow> language m)"

definition set_session_language :: "session_id \<Rightarrow> string \<Rightarrow> server \<Rightarrow> server" where
  "set_session_language sid lang s =
     (case session_metadata s sid of
        None \<Rightarrow> s
      | Some m \<Rightarrow> s\<lparr>session_metadata := (session_metadata s)(sid \<mapsto> m\<lparr>language := lang\<rparr>)\<rparr>)"

definition increment_message_count :: "session_id \<Rightarrow> server \<Rightarrow> server" where
  "increment_message_count sid s =
     (case session_metadata s sid of
        None \<Rightarrow> s
      | Some m \<Rightarrow>
          s\<lparr>session_metadata :=
              (session_metadata s)(sid \<mapsto> m\<lparr>message_count := message_count m + 1\<rparr>)\<rparr>)"

section \<open>Message router\<close>

definition send_typing_indicator :: "session_id \<Rightarrow> bool \<Rightarrow> server \<Rightarrow> server" where
  "send_typing_indicator sid is_typing s = send_message sid (Typing is_typing) s"

definition send_error :: "env \<Rightarrow> session_id \<Rightarrow> string \<Rightarrow> server \<Rightarrow> server" where
  "send_error e sid error_message s = send_message sid (Error error_message (now e)) s"

text \<open>The source records of the text response: at most two, each with its excerpt.\<close>

definition source_records :: "document list \<Rightarrow> (string \<times> string) list" where
  "source_records sources =
     map (\<lambda>doc. (case map_of (metadata doc) ''source'' of None \<Rightarrow> ''Unknown'' | Some src \<Rightarrow> src,
                 take 150 (page_content doc) @ ''...''))
         (take 2 sources)"

text \<open>
  \<^verbatim>\<open>_handle_text_message\<close>. The one step that can raise is \<^verbatim>\<open>.strip()\<close> on a content
  that is not a string; it comes before any effect, so \<open>Inl\<close> leaves the state as it was.
\<close>

definition handle_text_message ::
  "env \<Rightarrow> config \<Rightarrow> chunk list \<Rightarrow> session_id \<Rightarrow> (string \<times> json) list \<Rightarrow> server \<Rightarrow>
     py_error + server" where
  "handle_text_message e cfg chunks sid message s =
     (case dict_get message ''content'' (JStr []) of
        JStr c \<Rightarrow>
          (let user_message = str_strip c in
           if user_message = [] then Inr (send_error e sid ''Empty message'' s)
           else
             (let lang = get_session_language s sid;
                  s1 = send_typing_indicator sid True s;
                  (calls, answer, sources) = query cfg (generate e) chunks user_message lang;
                  s2 = s1\<lparr>rag_queries := rag_queries s1 @ [(user_message, lang)],
                          backend_calls := backend_calls s1 @ calls\<rparr>;
                  s3 = send_typing_indicator sid False s2;
                  response = TextResponse answer (source_records sources)
                               (now e) (processing_time_ms e);
                  s4 = send_message sid response s3
              in Inr (increment_message_count sid s4)))
      | _ \<Rightarrow> Inl AttributeError)"

text \<open>\<^verbatim>\<open>_send_audio_response\<close>: the body is \<^verbatim>\<open>pass\<close>.\<close>

definition send_audio_response :: "session_id \<Rightarrow> string \<Rightarrow> server \<Rightarrow> server" where
  "send_audio_response sid lang s = s"

text \<open>
  \<^verbatim>\<open>_handle_audio_message\<close>; every exception inside ends in the frame
  \<^verbatim>\<open>"Audio processing failed"\<close>.
\<close>

definition handle_audio_message ::
  "env \<Rightarrow> config \<Rightarrow> chunk list \<Rightarrow> session_id \<Rightarrow> (string \<times> json) list \<Rightarrow> server \<Rightarrow> server" where
  "handle_audio_message e cfg chunks sid message s =
     (let audio_base64 = dict_get message ''audio_data'' (JStr []) in
      if \<not> truthy audio_base64 then send_error e sid ''No audio data'' s
      else
        (case base64_to_audio e audio_base64 of
           Inl err \<Rightarrow> send_error e sid ''Audio processing failed'' s
         | Inr audio_bytes \<Rightarrow>
             (let language_hint = get_session_language s sid;
                  (transcribed_text, detected_language) =
                     transcribe_audio e audio_bytes
                       (if language_hint \<noteq> ''en'' then Some language_hint else None)
              in if transcribed_text = [] then send_error e sid ''Could not transcribe audio'' s
                 else
                   (let s1 = (if detected_language \<noteq> language_hint
                              then set_session_language sid detected_language s else s);
                        s2 = send_message sid (Transcription transcribed_text detected_language) s1
                    in case handle_text_message e cfg chunks sid
                              [(''content'', JStr transcribed_text)] s2 of
                         Inl err \<Rightarrow> send_error e sid ''Audio processing failed'' s2
                       | Inr s3 \<Rightarrow>
                           if truthy (dict_get message ''want_audio_response'' (JBool False))
                           then send_audio_response sid detected_language s3
                           else s3))))"

text \<open>\<^verbatim>\<open>_handle_language_change\<close>\<close>

definition handle_language_change ::
  "env \<Rightarrow> config \<Rightarrow> session_id \<Rightarrow> (string \<times> json) list \<Rightarrow> server \<Rightarrow> server" where
  "handle_language_change e cfg sid message s =
     (case dict_get message ''language'' (JStr ''en'') of
        JStr new_language \<Rightarrow>
          if new_language \<in> set (languages cfg)
          then send_message sid (System (''Language changed to '' @ new_language) new_language)
                 (set_session_language sid new_language s)
          else send_error e sid ''Unsupported language'' s
      | _ \<Rightarrow> send_error e sid ''Unsupported language'' s)"

text \<open>
  \<^verbatim>\<open>_process_message\<close> on the result of \<^verbatim>\<open>json.loads\<close>: \<open>None\<close> is a
  \<^verbatim>\<open>JSONDecodeError\<close>; a value that is not an object has no \<^verbatim>\<open>get\<close>, which ends in
  the generic error frame, as does an exception of the text handler.
\<close>

definition process_message ::
  "env \<Rightarrow> config \<Rightarrow> chunk list \<Rightarrow> session_id \<Rightarrow> json option \<Rightarrow> server \<Rightarrow> server" where
  "process_message e cfg chunks sid raw_message s =
     (case raw_message of
        None \<Rightarrow> send_error e sid ''Invalid JSON'' s
      | Some (JObj message) \<Rightarrow>
          (let message_type = dict_get message ''type'' (JStr ''text'') in
           if message_type = JStr ''text'' then
             (case handle_text_message e cfg chunks sid message s of
                Inl err \<Rightarrow> send_error e sid ''Internal server error'' s
              | Inr s' \<Rightarrow> s')
           else if message_type = JStr ''audio'' then
             handle_audio_message e cfg chunks sid message s
           else if message_type = JStr ''language'' then
             handle_language_change e cfg sid message s
           else send_error e sid ''Unknown message type'' s)
      | Some _ \<Rightarrow> send_error e sid ''Internal server error'' s)"

section \<open>Example data\<close>

text \<open>A small knowledge store, used to run the definitions on concrete inputs.\<close>

definition kb1 :: "chunk list" where
  "kb1 = [\<lparr>content = ''Our hours are 24/7'', source = ''faq.txt'', path = ''kb/faq.txt''\<rparr>,
          \<lparr>content = ''Refunds take 5 days'', source = ''faq.txt'', path = ''kb/faq.txt''\<rparr>,
          \<lparr>content = ''What are your HOURS?'', source = ''b.txt'', path = ''kb/b.txt''\<rparr>]"


definition backend_up :: backend where
  "backend_up call = Inr '' We are open 24/7. ''"

text \<open>
  An environment whose backend answers and whose transcription succeeds, the empty
  server, and the server after one connection.
\<close>

definition env1 :: env where
  "env1 = \<lparr>generate = backend_up, now = ''2024-01-01T00:00:00'', processing_time_ms = 12,
            b64decode = (\<lambda>b. Inr b), audio_enabled = True,
            whisper_model = Some (\<lambda>audio lang. Inr (''refunds '', Some ''en''))\<rparr>"

definition srv0 :: server where
  "srv0 = \<lparr>active_connections = Map.empty, session_metadata = Map.empty, sent = [],
            rag_queries = [], backend_calls = []\<rparr>"

definition srv1 :: server where
  "srv1 = connect env1 ''s1'' 7 srv0"

section \<open>Facts about the string primitives\<close>

lemma str_contains_iff: "str_contains w s \<longleftrightarrow> (\<exists>ps ss. s = ps @ w @ ss)"
proof (induction s)
  case Nil
  then show ?case by auto
next
  case (Cons c cs)
  show ?case
  proof
    assume "str_contains w (c # cs)"
    then consider "prefix w (c # cs)" | "str_contains w cs" by auto
    then show "\<exists>ps ss. c # cs = ps @ w @ ss"
    proof cases
      case 1
      then obtain ss where "c # cs = w @ ss" by (auto simp: prefix_def)
      then have "c # cs = [] @ w @ ss" by simp
      then show ?thesis by blast
    next
      case 2
      with Cons.IH obtain ps ss where "cs = ps @ w @ ss" by blast
      then have "c # cs = (c # ps) @ w @ ss" by simp
      then show ?thesis by blast
    qed
  next
    assume "\<exists>ps ss. c # cs = ps @ w @ ss"
    then obtain ps ss where eq: "c # cs = ps @ w @ ss" by blast
    show "str_contains w (c # cs)"
    proof (cases ps)
      case Nil
      with eq have "prefix w (c # cs)" by (simp add: prefix_def)
      then show ?thesis by simp
    next
      case (Cons p ps')
      with eq have "cs = ps' @ w @ ss" by simp
      with Cons.IH have "str_contains w cs" by blast
      then show ?thesis by simp
    qed
  qed
qed

lemma distinct_query_words: "distinct (query_words q)"
  by (simp add: query_words_def)

lemma set_query_words: "set (query_words q) = set (str_split (str_lower q))"
  by (simp add: query_words_def)

lemma chunk_score_card:
  "chunk_score (query_words q) c =
     card {w \<in> set (str_split (str_lower q)). \<exists>ps ss. str_lower (content c) = ps @ w @ ss}"
proof -
  have "chunk_score (query_words q) c =
          card (set (filter (\<lambda>w. str_contains w (str_lower (content c))) (query_words q)))"
    by (simp add: chunk_score_def distinct_card distinct_query_words del: set_filter)
  also have "set (filter (\<lambda>w. str_contains w (str_lower (content c))) (query_words q)) =
          {w \<in> set (str_split (str_lower q)). \<exists>ps ss. str_lower (content c) = ps @ w @ ss}"
    by (auto simp: set_query_words str_contains_iff)
  finally show ?thesis .
qed

section \<open>Facts about the search\<close>

lemma scored_chunks_pos: "x \<in> set (scored_chunks chunks qw) \<Longrightarrow> 0 < fst x"
  by (auto simp: scored_chunks_def)

lemma scored_chunks_fst:
  "x \<in> set (scored_chunks chunks qw) \<Longrightarrow> fst x = chunk_score qw (snd x)"
  by (auto simp: scored_chunks_def)

lemma map_snd_filter_scored:
  "map snd (filter (\<lambda>x. fst x = s) (scored_chunks chunks qw)) =
     (if s = 0 then [] else filter (\<lambda>c. chunk_score qw c = s) chunks)"
  unfolding scored_chunks_def by (induction chunks) auto

lemma filter_map_snd_score:
  assumes "\<forall>x \<in> set xs. fst x = chunk_score qw (snd x)"
  shows "filter (\<lambda>c. chunk_score qw c = s) (map snd xs) = map snd (filter (\<lambda>x. fst x = s) xs)"
  using assms by (induction xs) auto

lemma prefix_filter_take: "prefix (filter P (take n xs)) (filter P xs)"
proof -
  have "filter P xs = filter P (take n xs) @ filter P (drop n xs)"
    by (metis append_take_drop_id filter_append)
  then show ?thesis by (simp add: prefix_def)
qed

lemma search_unfold:
  "0 \<le> k \<Longrightarrow> simple_search chunks q k =
     map snd (take (nat k) (sort_key (\<lambda>x. - int (fst x)) (scored_chunks chunks (query_words q))))"
  by (simp add: simple_search_def py_slice_to_def Let_def)

lemma search_sorted_fst:
  "sorted_wrt (\<lambda>a b. fst b \<le> fst a)
     (take n (sort_key (\<lambda>x. - int (fst x)) (xs :: (nat \<times> 'a) list)))"
proof -
  have "sorted (map (\<lambda>x. - int (fst x)) (sort_key (\<lambda>x. - int (fst x)) xs))"
    by (rule sorted_sort_key)
  then have "sorted_wrt (\<lambda>a b. - int (fst a) \<le> - int (fst b)) (sort_key (\<lambda>x. - int (fst x)) xs)"
    by (simp add: sorted_map)
  then have "sorted_wrt (\<lambda>a b. fst b \<le> fst a) (sort_key (\<lambda>x. - int (fst x)) xs)"
    by simp
  then show ?thesis by (rule sorted_wrt_take)
qed

lemma search_stable_fst:
  "filter (\<lambda>x. fst x = n) (sort_key (\<lambda>x. - int (fst x)) (xs :: (nat \<times> 'a) list)) =
     filter (\<lambda>x. fst x = n) xs"
proof -
  have eq: "(\<lambda>x :: nat \<times> 'a. fst x = n) = (\<lambda>x. - int (fst x) = - int n)"
    by auto
  show ?thesis
    unfolding eq by (rule sort_key_stable)
qed

lemma taken_in_scored:
  "x \<in> set (take n (sort_key f (scored_chunks chunks qw))) \<Longrightarrow> x \<in> set (scored_chunks chunks qw)"
  using set_take_subset [of n "sort_key f (scored_chunks chunks qw)"] by auto

section \<open>Claims about the keyword search\<close>

text \<open>
  C1. For every store \<open>chunks\<close>, every query \<open>q\<close> and every count \<open>k \<ge> 0\<close>, the search
  returns at most \<open>k\<close> chunks; each has score at least 1, where the score is the number of
  distinct words of the lowercased, whitespace-split query that occur as substrings of
  the lowercased content; the result is sorted by non-increasing score; and for each score
  the returned chunks of that score are an initial part of the store's chunks of that
  score, in the store's order, so ties keep the insertion order.
\<close>

theorem simple_search_ranked:
  "0 \<le> k \<Longrightarrow>
     int (length (simple_search chunks q k)) \<le> k \<and>
     (\<forall>c \<in> set (simple_search chunks q k).
        1 \<le> chunk_score (query_words q) c \<and>
        chunk_score (query_words q) c =
          card {w \<in> set (str_split (str_lower q)).
                  \<exists>ps ss. str_lower (content c) = ps @ w @ ss}) \<and>
     sorted_wrt (\<lambda>a b. chunk_score (query_words q) b \<le> chunk_score (query_words q) a)
       (simple_search chunks q k) \<and>
     (\<forall>n. prefix (filter (\<lambda>c. chunk_score (query_words q) c = n) (simple_search chunks q k))
                 (filter (\<lambda>c. chunk_score (query_words q) c = n) chunks))"
proof -
  assume k: "0 \<le> k"
  define qw where "qw = query_words q"
  define T where "T = take (nat k) (sort_key (\<lambda>x. - int (fst x)) (scored_chunks chunks qw))"
  have R: "simple_search chunks q k = map snd T"
    using k by (simp add: search_unfold T_def qw_def)
  have inS: "\<And>x. x \<in> set T \<Longrightarrow> x \<in> set (scored_chunks chunks qw)"
    unfolding T_def by (rule taken_in_scored)
  have fst_score: "\<forall>x \<in> set T. fst x = chunk_score qw (snd x)"
    using inS scored_chunks_fst by blast
  have len: "int (length (simple_search chunks q k)) \<le> k"
    using k by (simp add: R T_def)
  have pos: "\<forall>c \<in> set (simple_search chunks q k). 1 \<le> chunk_score qw c"
  proof
    fix c assume "c \<in> set (simple_search chunks q k)"
    then obtain x where x: "x \<in> set T" "c = snd x" by (auto simp: R)
    then have "0 < fst x" using inS scored_chunks_pos by blast
    with x fst_score show "1 \<le> chunk_score qw c" by auto
  qed
  have srt: "sorted_wrt (\<lambda>a b. chunk_score qw b \<le> chunk_score qw a) (simple_search chunks q k)"
  proof -
    have "sorted_wrt (\<lambda>a b. fst b \<le> fst a) T"
      unfolding T_def by (rule search_sorted_fst)
    then have "sorted_wrt (\<lambda>a b. chunk_score qw (snd b) \<le> chunk_score qw (snd a)) T"
      by (rule sorted_wrt_mono_rel [rotated]) (simp add: fst_score [rule_format, symmetric])
    then show ?thesis by (simp add: R sorted_wrt_map)
  qed
  have stab: "prefix (filter (\<lambda>c. chunk_score qw c = n) (simple_search chunks q k))
                (filter (\<lambda>c. chunk_score qw c = n) chunks)" for n
  proof -
    have "filter (\<lambda>c. chunk_score qw c = n) (simple_search chunks q k) =
            map snd (filter (\<lambda>x. fst x = n) T)"
      unfolding R using fst_score by (rule filter_map_snd_score)
    moreover have "prefix (filter (\<lambda>x. fst x = n) T)
                     (filter (\<lambda>x. fst x = n) (scored_chunks chunks qw))"
      unfolding T_def using prefix_filter_take [of "\<lambda>x. fst x = n" "nat k"
          "sort_key (\<lambda>x. - int (fst x)) (scored_chunks chunks qw)"]
      by (simp add: search_stable_fst)
    then have "prefix (map snd (filter (\<lambda>x. fst x = n) T))
                 (map snd (filter (\<lambda>x. fst x = n) (scored_chunks chunks qw)))"
      by (rule map_mono_prefix)
    ultimately show ?thesis
      by (cases "n = 0") (simp_all add: map_snd_filter_scored)
  qed
  show ?thesis
    using len pos srt stab by (simp add: qw_def chunk_score_card [symmetric])
qed

text \<open>
  The theorem at the store \<open>kb1\<close> and the query \<^verbatim>\<open>Hours\<close> with \<open>k = 3\<close>: the first and
  the third chunk match with score 1 and come back in the order of the store.
\<close>

theorem simple_search_ranked_witness:
  "(0::int) \<le> 3 \<and>
   simple_search kb1 ''Hours'' 3 = [kb1 ! 0, kb1 ! 2] \<and>
   int (length (simple_search kb1 ''Hours'' 3)) \<le> 3 \<and>
   sorted_wrt (\<lambda>a b. chunk_score (query_words ''Hours'') b
                      \<le> chunk_score (query_words ''Hours'') a)
     (simple_search kb1 ''Hours'' 3) \<and>
   prefix (filter (\<lambda>c. chunk_score (query_words ''Hours'') c = 1)
             (simple_search kb1 ''Hours'' 3))
          (filter (\<lambda>c. chunk_score (query_words ''Hours'') c = 1) kb1)"
proof -
  have h: "(0::int) \<le> 3" by simp
  have ev: "simple_search kb1 ''Hours'' 3 = [kb1 ! 0, kb1 ! 2]"
    by code_simp
  show ?thesis
    using h ev simple_search_ranked [OF h, of kb1 "''Hours''"] by blast
qed

section \<open>Facts about the chunking\<close>

lemma re_split_aux_no_blank:
  "\<not> str_contains [nl, nl] t \<Longrightarrow> re_split_aux False cur t = [cur @ t]"
proof (induction t arbitrary: cur)
  case Nil
  then show ?case by simp
next
  case (Cons c cs)
  from Cons.prems have np: "\<not> prefix [nl, nl] (c # cs)" and nc: "\<not> str_contains [nl, nl] cs"
    by auto
  from np have "\<not> (c = nl \<and> take 1 cs = [nl])"
    by (cases cs) auto
  with Cons.IH [OF nc] show ?case by auto
qed

lemma re_split_no_blank: "\<not> has_blank_line t \<Longrightarrow> re_split t = [t]"
  by (simp add: has_blank_line_def re_split_def re_split_aux_no_blank)

lemma strip_end_hd:
  "d \<noteq> [] \<Longrightarrow> \<not> isspace (hd d) \<Longrightarrow>
     rev (dropWhile isspace (rev d)) \<noteq> [] \<and> hd (rev (dropWhile isspace (rev d))) = hd d"
proof (induction d rule: rev_induct)
  case Nil
  then show ?case by simp
next
  case (snoc x xs)
  show ?case
  proof (cases "isspace x")
    case False
    then show ?thesis by simp
  next
    case True
    with snoc.prems have "xs \<noteq> []" by (cases xs) auto
    with snoc show ?thesis using True by simp
  qed
qed

lemma str_strip_ends:
  assumes "str_strip t \<noteq> []"
  shows "\<not> isspace (hd (str_strip t))" and "\<not> isspace (last (str_strip t))"
proof -
  let ?d = "dropWhile isspace t"
  have "d = [] \<Longrightarrow> rev (dropWhile isspace (rev d)) = []" for d :: string by simp
  from this [of ?d] assms have dne: "?d \<noteq> []" unfolding str_strip_def by blast
  then have hd: "\<not> isspace (hd ?d)" by (rule hd_dropWhile)
  from strip_end_hd [OF dne hd] hd show "\<not> isspace (hd (str_strip t))"
    by (simp add: str_strip_def)
  have "rev (str_strip t) = dropWhile isspace (rev ?d)" by (simp add: str_strip_def)
  moreover from assms have "dropWhile isspace (rev ?d) \<noteq> []" by (simp add: str_strip_def)
  then have "\<not> isspace (hd (dropWhile isspace (rev ?d)))" by (rule hd_dropWhile)
  ultimately have "\<not> isspace (hd (rev (str_strip t)))" by simp
  with assms show "\<not> isspace (last (str_strip t))" by (simp add: hd_rev)
qed

lemma str_strip_fixed:
  assumes "p \<noteq> []" "\<not> isspace (hd p)" "\<not> isspace (last p)"
  shows "str_strip (p @ [nl, nl]) = p"
proof -
  have sp: "isspace nl" by (simp add: isspace_def nl_def)
  from assms have a: "dropWhile isspace (p @ [nl, nl]) = p @ [nl, nl]"
    by (cases p) auto
  from assms have "rev p \<noteq> []" "\<not> isspace (hd (rev p))" by (simp_all add: hd_rev)
  then have b: "dropWhile isspace (rev p) = rev p" by (cases "rev p") auto
  show ?thesis by (simp add: str_strip_def a sp b)
qed

lemma str_strip_nlnl: "str_strip t \<noteq> [] \<Longrightarrow> str_strip (str_strip t @ [nl, nl]) = str_strip t"
  using str_strip_ends [of t] by (simp add: str_strip_fixed)

lemma length_str_strip: "length (str_strip t) \<le> length t"
proof -
  have "length (str_strip t) \<le> length (dropWhile isspace t)"
    using length_dropWhile_le [of isspace "rev (dropWhile isspace t)"]
    by (simp add: str_strip_def)
  also have "\<dots> \<le> length t" by (rule length_dropWhile_le)
  finally show ?thesis .
qed

lemma split_loop_blank:
  "\<forall>p \<in> set ps. str_strip p = [] \<Longrightarrow> split_loop cs ps st = st"
  by (induction ps) (auto simp: Let_def split: prod.splits, (cases st, simp)+)

lemma split_text_all_blank:
  "\<forall>p \<in> set (re_split t). str_strip p = [] \<Longrightarrow> split_text t cs = [t]"
  by (simp add: split_text_def split_loop_blank)

lemma split_text_no_blank:
  assumes "\<not> has_blank_line t" "int (length t) < cs"
  shows "split_text t cs = [if str_strip t = [] then t else str_strip t]"
proof (cases "str_strip t = []")
  case True
  then show ?thesis
    using assms by (simp add: split_text_def re_split_no_blank)
next
  case False
  have "int (length (str_strip t)) < cs"
    using assms(2) length_str_strip [of t] by linarith
  with False show ?thesis
    using assms(1) by (simp add: split_text_def re_split_no_blank str_strip_nlnl)
qed

subsection \<open>The code against the specification's procedure\<close>

lemma str_join_snoc:
  "str_join sep (xs @ [p]) = (if xs = [] then p else str_join sep xs @ sep @ p)"
  by (induction sep xs rule: str_join.induct) auto

lemma str_join_ends:
  "xs \<noteq> [] \<Longrightarrow> \<forall>p \<in> set xs. p \<noteq> [] \<Longrightarrow>
     str_join sep xs \<noteq> [] \<and> hd (str_join sep xs) = hd (hd xs) \<and>
     last (str_join sep xs) = last (last xs)"
  by (induction sep xs rule: str_join.induct) auto

lemma spec_groups_concat: "concat (spec_groups cs buffer ps) = buffer @ ps"
  by (induction ps arbitrary: buffer) auto

lemma spec_groups_nonempty: "[] \<notin> set (spec_groups cs buffer ps)"
  by (induction ps arbitrary: buffer) auto

lemma spec_groups_below:
  "(2 \<le> length buffer \<longrightarrow> int (length (str_join [nl, nl] buffer)) < cs) \<Longrightarrow>
     \<forall>g \<in> set (spec_groups cs buffer ps).
       2 \<le> length g \<longrightarrow> int (length (str_join [nl, nl] g)) < cs"
proof (induction ps arbitrary: buffer)
  case Nil
  then show ?case by simp
next
  case (Cons p ps)
  show ?case
  proof (cases "cs \<le> int (length (str_join [nl, nl] (buffer @ [p])))")
    case True
    have "\<forall>g \<in> set (spec_groups cs [p] ps).
            2 \<le> length g \<longrightarrow> int (length (str_join [nl, nl] g)) < cs"
      by (rule Cons.IH) simp
    with True Cons.prems show ?thesis by auto
  next
    case False
    have "\<forall>g \<in> set (spec_groups cs (buffer @ [p]) ps).
            2 \<le> length g \<longrightarrow> int (length (str_join [nl, nl] g)) < cs"
      by (rule Cons.IH) (use False in simp)
    with False show ?thesis by simp
  qed
qed

lemma spec_groups_hd:
  "buffer \<noteq> [] \<Longrightarrow>
     spec_groups cs buffer ps \<noteq> [] \<and> hd (hd (spec_groups cs buffer ps)) = hd buffer"
  by (induction ps arbitrary: buffer) auto

lemma spec_groups_flush:
  "successively (\<lambda>g g'. cs \<le> int (length (str_join [nl, nl] (g @ [hd g']))))
     (spec_groups cs buffer ps)"
proof (induction ps arbitrary: buffer)
  case Nil
  then show ?case by simp
next
  case (Cons p ps)
  show ?case
  proof (cases "cs \<le> int (length (str_join [nl, nl] (buffer @ [p])))")
    case True
    from spec_groups_hd [of "[p]" cs ps]
    have "spec_groups cs [p] ps \<noteq> []" "hd (hd (spec_groups cs [p] ps)) = p" by simp_all
    with True Cons.IH [of "[p]"] show ?thesis
      by (simp add: successively_Cons)
  next
    case False
    with Cons.IH [of "buffer @ [p]"] show ?thesis by simp
  qed
qed


lemma buffer_flush:
  assumes "buffer \<noteq> []" "\<forall>p \<in> set buffer. p \<noteq> [] \<and> \<not> isspace (hd p) \<and> \<not> isspace (last p)"
  shows "str_strip (str_join [nl, nl] buffer @ [nl, nl]) = str_join [nl, nl] buffer"
proof -
  from assms have ne: "\<forall>p \<in> set buffer. p \<noteq> []" by blast
  from str_join_ends [OF assms(1) ne, of "[nl, nl]"]
  have j: "str_join [nl, nl] buffer \<noteq> []"
    "hd (str_join [nl, nl] buffer) = hd (hd buffer)"
    "last (str_join [nl, nl] buffer) = last (last buffer)"
    by simp_all
  from assms have "hd buffer \<in> set buffer" "last buffer \<in> set buffer" by simp_all
  with assms(2) have "\<not> isspace (hd (hd buffer))" "\<not> isspace (last (last buffer))" by blast+
  with j show ?thesis by (simp add: str_strip_fixed)
qed

lemma split_loop_groups:
  assumes "\<forall>p \<in> set buffer. p \<noteq> [] \<and> \<not> isspace (hd p) \<and> \<not> isspace (last p)"
  shows "(case split_loop cs ps
                 (chunks, if buffer = [] then [] else str_join [nl, nl] buffer @ [nl, nl]) of
            (chunks', current_chunk) \<Rightarrow>
              if current_chunk \<noteq> [] then chunks' @ [str_strip current_chunk] else chunks') =
         chunks @ map (str_join [nl, nl])
                    (spec_groups cs buffer (filter (\<lambda>p. p \<noteq> []) (map str_strip ps)))"
  using assms
proof (induction ps arbitrary: chunks buffer)
  case Nil
  then show ?case by (simp add: buffer_flush)
next
  case (Cons p ps)
  let ?cur = "if buffer = [] then [] else str_join [nl, nl] buffer @ [nl, nl]"
  let ?para = "str_strip p"
  show ?case
  proof (cases "?para = []")
    case True
    with Cons.IH [OF Cons.prems, of chunks] show ?thesis by simp
  next
    case False
    from str_strip_ends [OF False]
    have good: "\<forall>q \<in> set (buffer @ [?para]). q \<noteq> [] \<and> \<not> isspace (hd q) \<and> \<not> isspace (last q)"
      "\<forall>q \<in> set [?para]. q \<noteq> [] \<and> \<not> isspace (hd q) \<and> \<not> isspace (last q)"
      using Cons.prems False by auto
    have len: "int (length ?cur) + int (length ?para) =
                 int (length (str_join [nl, nl] (buffer @ [?para])))"
      by (simp add: str_join_snoc)
    have nxt: "?cur @ ?para @ [nl, nl] =
                 (if buffer @ [?para] = [] then []
                  else str_join [nl, nl] (buffer @ [?para]) @ [nl, nl])"
      by (simp add: str_join_snoc)
    have one: "?para @ [nl, nl] =
                 (if [?para] = [] then [] else str_join [nl, nl] [?para] @ [nl, nl])"
      by simp
    show ?thesis
    proof (cases "cs \<le> int (length (str_join [nl, nl] (buffer @ [?para])))")
      case flush: True
      then have t: "\<not> int (length ?cur) + int (length ?para) < cs"
        using len by linarith
      have step: "split_loop cs (p # ps) (chunks, ?cur) =
              split_loop cs ps
                (if ?cur \<noteq> [] then chunks @ [str_strip ?cur] else chunks, ?para @ [nl, nl])"
        using False t by (simp add: Let_def)
      have fl: "(if ?cur \<noteq> [] then chunks @ [str_strip ?cur] else chunks) =
              chunks @ map (str_join [nl, nl]) (if buffer \<noteq> [] then [buffer] else [])"
        using Cons.prems by (simp add: buffer_flush)
      show ?thesis
        unfolding step fl
        unfolding one
        using Cons.IH [OF good(2),
            of "chunks @ map (str_join [nl, nl]) (if buffer \<noteq> [] then [buffer] else [])"]
          False flush
        by simp
    next
      case keep: False
      then have t: "int (length ?cur) + int (length ?para) < cs"
        using len by linarith
      have step: "split_loop cs (p # ps) (chunks, ?cur) =
              split_loop cs ps (chunks, ?cur @ ?para @ [nl, nl])"
        using False t by (simp add: Let_def)
      show ?thesis
        unfolding step
        unfolding nxt
        using Cons.IH [OF good(1), of chunks] False keep
        by simp
    qed
  qed
qed

lemma split_text_refines: "split_text t cs = spec_split_text t cs"
proof -
  obtain chunks' current_chunk
    where sl: "split_loop cs (re_split t) ([], []) = (chunks', current_chunk)"
    by (cases "split_loop cs (re_split t) ([], [])")
  define fin where
    "fin = (if current_chunk \<noteq> [] then chunks' @ [str_strip current_chunk] else chunks')"
  define groups where "groups = spec_groups cs [] (spec_paragraphs t)"
  have "fin = map (str_join [nl, nl]) groups"
    using split_loop_groups [of "[]" cs "re_split t" "[]"]
    by (simp add: spec_paragraphs_def sl fin_def groups_def)
  moreover have "split_text t cs = (if fin \<noteq> [] then fin else [t])"
    by (simp add: split_text_def sl fin_def)
  moreover have "spec_split_text t cs =
      (if groups = [] then [t] else map (str_join [nl, nl]) groups)"
    by (simp add: spec_split_text_def groups_def)
  ultimately show ?thesis by simp
qed

section \<open>Claims about the chunking\<close>

text \<open>
  C3, as the spec states it, fails: a document with no blank-line break and fewer than
  \<open>chunk_size\<close> characters does yield one chunk, but the chunk is the trimmed paragraph,
  not the whole input. The five letters of \<^verbatim>\<open>hello\<close> followed by a newline give the
  chunk \<^verbatim>\<open>hello\<close>.
\<close>

theorem split_text_whole_input_counterexample:
  "\<not> has_blank_line (''hello'' @ [nl]) \<and>
   int (length (''hello'' @ [nl])) < 800 \<and>
   split_text (''hello'' @ [nl]) 800 = [''hello''] \<and>
   split_text (''hello'' @ [nl]) 800 \<noteq> [''hello'' @ [nl]]"
  by (simp add: has_blank_line_def nl_def split_text_def re_split_def str_strip_def isspace_def)

text \<open>
  C3, amended. The chunking splits the input at the blank-line breaks, trims the
  paragraphs, skips the empty ones and accumulates the rest with a size-threshold flush:
  its result is that of the specification's procedure \<open>spec_split_text\<close>. The groups
  of that procedure hold every non-empty trimmed paragraph once, in order; none is
  empty; a group of two or more paragraphs, joined by blank lines, is shorter than
  \<open>chunk_size\<close>; and each group is closed only where appending the next paragraph
  would reach or exceed \<open>chunk_size\<close>. The result is never empty. When every paragraph
  is empty after trimming, no chunk is accumulated and the result is the original text
  as a single chunk. A document with no blank-line break and fewer than \<open>chunk_size\<close>
  characters yields exactly one chunk: the input with the whitespace at both ends
  removed, or the input itself when it consists of whitespace only.
\<close>

theorem split_text_chunks:
  "split_text t cs = spec_split_text t cs \<and>
   concat (spec_groups cs [] (spec_paragraphs t)) = spec_paragraphs t \<and>
   [] \<notin> set (spec_groups cs [] (spec_paragraphs t)) \<and>
   (\<forall>g \<in> set (spec_groups cs [] (spec_paragraphs t)).
      2 \<le> length g \<longrightarrow> int (length (str_join [nl, nl] g)) < cs) \<and>
   successively (\<lambda>g g'. cs \<le> int (length (str_join [nl, nl] (g @ [hd g']))))
     (spec_groups cs [] (spec_paragraphs t)) \<and>
   split_text t cs \<noteq> [] \<and>
   ((\<forall>p \<in> set (re_split t). str_strip p = []) \<longrightarrow> split_text t cs = [t]) \<and>
   (\<not> has_blank_line t \<and> int (length t) < cs \<longrightarrow>
      split_text t cs = [if str_strip t = [] then t else str_strip t])"
proof -
  have a: "split_text t cs = spec_split_text t cs"
    by (rule split_text_refines)
  have b: "concat (spec_groups cs [] (spec_paragraphs t)) = spec_paragraphs t"
    by (simp add: spec_groups_concat)
  have c: "[] \<notin> set (spec_groups cs [] (spec_paragraphs t))"
    by (rule spec_groups_nonempty)
  have d: "\<forall>g \<in> set (spec_groups cs [] (spec_paragraphs t)).
      2 \<le> length g \<longrightarrow> int (length (str_join [nl, nl] g)) < cs"
    by (rule spec_groups_below) simp
  have e: "successively (\<lambda>g g'. cs \<le> int (length (str_join [nl, nl] (g @ [hd g']))))
     (spec_groups cs [] (spec_paragraphs t))"
    by (rule spec_groups_flush)
  have f: "split_text t cs \<noteq> []"
    by (simp add: split_text_def Let_def split: prod.splits)
  from a b c d e f split_text_all_blank [of t cs] split_text_no_blank [of t cs]
  show ?thesis by blast
qed

text \<open>
  The theorem at two paragraphs of four letters with a blank line between them, ten
  characters in all: at \<open>chunk_size = 10\<close> appending the second paragraph reaches the
  threshold and two chunks result, at \<open>chunk_size = 11\<close> both paragraphs make one chunk.
  Then at a text of one space (every paragraph blank) and at \<^verbatim>\<open>hi\<close> followed by a newline
  (no blank-line break, three characters).
\<close>

theorem split_text_chunks_witness:
  "spec_groups 10 [] (spec_paragraphs (''aaaa'' @ [nl, nl] @ ''bbbb''))
     = [[''aaaa''], [''bbbb'']] \<and>
   (10::int) \<le> int (length (str_join [nl, nl] ([''aaaa''] @ [hd [''bbbb'']]))) \<and>
   split_text (''aaaa'' @ [nl, nl] @ ''bbbb'') 10 = [''aaaa'', ''bbbb''] \<and>
   spec_groups 11 [] (spec_paragraphs (''aaaa'' @ [nl, nl] @ ''bbbb''))
     = [[''aaaa'', ''bbbb'']] \<and>
   (2::nat) \<le> length [''aaaa'', ''bbbb''] \<and>
   int (length (str_join [nl, nl] [''aaaa'', ''bbbb''])) < 11 \<and>
   split_text (''aaaa'' @ [nl, nl] @ ''bbbb'') 11 = [''aaaa'' @ [nl, nl] @ ''bbbb''] \<and>
   re_split '' '' = ['' ''] \<and> str_strip '' '' = [] \<and>
   split_text '' '' 800 = ['' ''] \<and>
   \<not> has_blank_line (''hi'' @ [nl]) \<and> int (length (''hi'' @ [nl])) < 800 \<and>
   split_text (''hi'' @ [nl]) 800 = [''hi'']"
proof -
  have g10: "spec_groups 10 [] (spec_paragraphs (''aaaa'' @ [nl, nl] @ ''bbbb''))
     = [[''aaaa''], [''bbbb'']]"
    by code_simp
  have g11: "spec_groups 11 [] (spec_paragraphs (''aaaa'' @ [nl, nl] @ ''bbbb''))
     = [[''aaaa'', ''bbbb'']]"
    by code_simp
  have s10: "spec_split_text (''aaaa'' @ [nl, nl] @ ''bbbb'') 10 = [''aaaa'', ''bbbb'']"
    by code_simp
  have s11: "spec_split_text (''aaaa'' @ [nl, nl] @ ''bbbb'') 11
                = [''aaaa'' @ [nl, nl] @ ''bbbb'']"
    by code_simp
  have l10: "(10::int) \<le> int (length (str_join [nl, nl] ([''aaaa''] @ [hd [''bbbb'']])))"
    by simp
  have l11: "(2::nat) \<le> length [''aaaa'', ''bbbb''] \<and>
             int (length (str_join [nl, nl] [''aaaa'', ''bbbb''])) < 11"
    by simp
  from split_text_chunks [of "''aaaa'' @ [nl, nl] @ ''bbbb''" 10] s10
  have c10: "split_text (''aaaa'' @ [nl, nl] @ ''bbbb'') 10 = [''aaaa'', ''bbbb'']"
    by simp
  from split_text_chunks [of "''aaaa'' @ [nl, nl] @ ''bbbb''" 11] s11
  have c11: "split_text (''aaaa'' @ [nl, nl] @ ''bbbb'') 11 = [''aaaa'' @ [nl, nl] @ ''bbbb'']"
    by simp
  have r: "re_split '' '' = ['' '']"
    by (simp add: re_split_def nl_def)
  have e: "str_strip '' '' = []"
    by (simp add: str_strip_def isspace_def)
  from r e have a: "\<forall>p \<in> set (re_split '' ''). str_strip p = []"
    by simp
  have b: "\<not> has_blank_line (''hi'' @ [nl]) \<and> int (length (''hi'' @ [nl])) < 800"
    by (simp add: has_blank_line_def nl_def)
  have c: "str_strip (''hi'' @ [nl]) = ''hi''"
    by (simp add: nl_def str_strip_def isspace_def)
  from a split_text_chunks [of "'' ''" 800]
  have d: "split_text '' '' 800 = ['' '']"
    by blast
  from split_text_chunks [of "''hi'' @ [nl]" 800]
  have "\<not> has_blank_line (''hi'' @ [nl]) \<and> int (length (''hi'' @ [nl])) < 800 \<longrightarrow>
          split_text (''hi'' @ [nl]) 800 =
            [if str_strip (''hi'' @ [nl]) = [] then ''hi'' @ [nl] else str_strip (''hi'' @ [nl])]"
    by blast
  with b have "split_text (''hi'' @ [nl]) 800 =
            [if str_strip (''hi'' @ [nl]) = [] then ''hi'' @ [nl] else str_strip (''hi'' @ [nl])]"
    by blast
  then have f: "split_text (''hi'' @ [nl]) 800 = [''hi'']"
    by (simp only: c) simp
  from g10 l10 c10 g11 l11 c11 r e d b f show ?thesis by blast
qed

section \<open>Facts about the retrieval engine\<close>

lemma query_cases:
  "query cfg gen chunks question lang =
     (let relevant = simple_search chunks question 3 in
      if relevant = [] then
        ([direct_call cfg question],
         (case gen (direct_call cfg question) of
            Inl e \<Rightarrow> direct_apology | Inr response \<Rightarrow> str_strip response),
         [])
      else
        ([grounded_call cfg relevant question],
         (case gen (grounded_call cfg relevant question) of
            Inl e \<Rightarrow> (get_fallback_response lang, [])
          | Inr response \<Rightarrow>
              (str_strip response,
               map (\<lambda>c. \<lparr>page_content = content c, metadata = [(''source'', source c)]\<rparr>)
                 relevant))))"
  by (simp add: query_def query_try_def get_direct_answer_def Let_def split: sum.splits)


section \<open>Claims about the retrieval engine\<close>





section \<open>Facts about the session registry and the message router\<close>

lemma send_message_active:
  "active_connections s sid = Some ws \<Longrightarrow>
     send_message sid f s = s\<lparr>sent := sent s @ [(ws, f)]\<rparr>"
  by (simp add: send_message_def)

lemma send_error_active:
  "active_connections s sid = Some ws \<Longrightarrow>
     send_error e sid msg s = s\<lparr>sent := sent s @ [(ws, Error msg (now e))]\<rparr>"
  by (simp add: send_error_def send_message_active)

lemma sent_increment [simp]: "sent (increment_message_count sid s) = sent s"
  by (simp add: increment_message_count_def split: option.splits)

lemma active_increment [simp]:
  "active_connections (increment_message_count sid s) = active_connections s"
  by (simp add: increment_message_count_def split: option.splits)

lemma sent_set_language [simp]: "sent (set_session_language sid l s) = sent s"
  by (simp add: set_session_language_def split: option.splits)

lemma active_set_language [simp]:
  "active_connections (set_session_language sid l s) = active_connections s"
  by (simp add: set_session_language_def split: option.splits)

lemma handle_text_sent:
  assumes "active_connections s sid = Some ws"
    and "map_of message ''content'' = Some (JStr c)"
    and "str_strip c \<noteq> []"
  shows "\<exists>s'. handle_text_message e cfg chunks sid message s = Inr s' \<and>
           active_connections s' = active_connections s \<and>
           sent s' = sent s @
             [(ws, Typing True), (ws, Typing False),
              (ws, TextResponse
                     (fst (snd (query cfg (generate e) chunks (str_strip c)
                                  (get_session_language s sid))))
                     (source_records
                        (snd (snd (query cfg (generate e) chunks (str_strip c)
                                     (get_session_language s sid)))))
                     (now e) (processing_time_ms e))]"
  using assms
  by (simp add: handle_text_message_def dict_get_def Let_def send_typing_indicator_def
      send_message_def split: prod.splits)

lemma query_docs:
  "snd (snd (query cfg gen chunks q lang)) = [] \<or>
   snd (snd (query cfg gen chunks q lang)) =
     map (\<lambda>c. \<lparr>page_content = content c, metadata = [(''source'', source c)]\<rparr>)
       (simple_search chunks q 3)"
  by (simp add: query_cases Let_def split: sum.splits)

lemma length_source_records: "length (source_records docs) \<le> 2"
  by (simp add: source_records_def)

lemma source_records_nth:
  assumes "docs = [] \<or> docs = map (\<lambda>c. \<lparr>page_content = content c, metadata = [(''source'', source c)]\<rparr>) rel"
    and "i < length (source_records docs)"
  shows "source_records docs ! i = (source (rel ! i), take 150 (content (rel ! i)) @ ''...'')"
proof -
  from assms(2) have "docs \<noteq> []" by (auto simp: source_records_def)
  with assms(1) have d: "docs = map (\<lambda>c. \<lparr>page_content = content c, metadata = [(''source'', source c)]\<rparr>) rel"
    by blast
  from assms(2) have "i < 2" "i < length rel" by (simp_all add: source_records_def d)
  then show ?thesis by (simp add: source_records_def d)
qed

lemma handle_text_types:
  "handle_text_message e cfg chunks sid message s = Inr s' \<Longrightarrow>
     active_connections s' = active_connections s \<and>
     (\<exists>fs. sent s' = sent s @ fs \<and>
           (\<forall>x \<in> set fs. frame_type (snd x) \<in> {''error'', ''typing'', ''text''}))"
  by (auto simp: handle_text_message_def dict_get_def Let_def send_typing_indicator_def
      send_error_def send_message_def split: prod.splits option.splits json.splits if_splits)

lemma send_error_types:
  "\<exists>fs. sent (send_error e sid msg s) = sent s @ fs \<and>
        (\<forall>x \<in> set fs. frame_type (snd x) \<in> {''error'', ''transcription'', ''typing'', ''text''})"
  by (auto simp: send_error_def send_message_def split: option.splits)

lemma handle_audio_types:
  "\<exists>fs. sent (handle_audio_message e cfg chunks sid message s) = sent s @ fs \<and>
        (\<forall>x \<in> set fs. frame_type (snd x) \<in> {''error'', ''transcription'', ''typing'', ''text''})"
proof -
  let ?goal = "\<lambda>s'. \<exists>fs. sent s' = sent s @ fs \<and>
        (\<forall>x \<in> set fs. frame_type (snd x) \<in> {''error'', ''transcription'', ''typing'', ''text''})"
  have err: "?goal (send_error e sid msg s)" for msg by (rule send_error_types)
  show ?thesis
  proof (cases "truthy (dict_get message ''audio_data'' (JStr []))")
    case False
    then show ?thesis using err by (simp add: handle_audio_message_def)
  next
    case tr: True
    show ?thesis
    proof (cases "base64_to_audio e (dict_get message ''audio_data'' (JStr []))")
      case (Inl err')
      then show ?thesis using err tr by (simp add: handle_audio_message_def)
    next
      case (Inr audio_bytes)
      let ?hint = "get_session_language s sid"
      obtain tt dl where tr2: "transcribe_audio e audio_bytes
              (if ?hint \<noteq> ''en'' then Some ?hint else None) = (tt, dl)"
        by (cases "transcribe_audio e audio_bytes (if ?hint \<noteq> ''en'' then Some ?hint else None)")
      show ?thesis
      proof (cases "tt = []")
        case True
        then show ?thesis using err tr Inr tr2 by (simp add: handle_audio_message_def)
      next
        case False
        define s1 where "s1 = (if dl \<noteq> ?hint then set_session_language sid dl s else s)"
        define s2 where "s2 = send_message sid (Transcription tt dl) s1"
        have s1: "sent s1 = sent s" "active_connections s1 = active_connections s"
          by (simp_all add: s1_def)
        have s2: "\<exists>fs. sent s2 = sent s @ fs \<and> (\<forall>x \<in> set fs. frame_type (snd x) \<in> {''transcription''})"
          "active_connections s2 = active_connections s"
          using s1 by (auto simp: s2_def send_message_def split: option.splits)
        have res: "handle_audio_message e cfg chunks sid message s =
            (case handle_text_message e cfg chunks sid [(''content'', JStr tt)] s2 of
               Inl err \<Rightarrow> send_error e sid ''Audio processing failed'' s2
             | Inr s3 \<Rightarrow> s3)"
          using tr Inr tr2 False
          by (simp add: handle_audio_message_def s1_def s2_def send_audio_response_def Let_def
              split: sum.splits)
        show ?thesis
        proof (cases "handle_text_message e cfg chunks sid [(''content'', JStr tt)] s2")
          case (Inl err')
          obtain fs where "sent (send_error e sid ''Audio processing failed'' s2) = sent s2 @ fs"
            "(\<forall>x \<in> set fs. frame_type (snd x) \<in> {''error'', ''transcription'', ''typing'', ''text''})"
            using send_error_types [of e sid "''Audio processing failed''" s2] by blast
          moreover obtain gs where "sent s2 = sent s @ gs" "(\<forall>x \<in> set gs. frame_type (snd x) \<in> {''transcription''})"
            using s2(1) by blast
          ultimately have "sent (send_error e sid ''Audio processing failed'' s2) = sent s @ (gs @ fs) \<and>
              (\<forall>x \<in> set (gs @ fs). frame_type (snd x) \<in> {''error'', ''transcription'', ''typing'', ''text''})"
            by auto
          then show ?thesis unfolding res Inl by (simp only: sum.case) blast
        next
          case (Inr s3)
          from handle_text_types [OF Inr] obtain fs where "sent s3 = sent s2 @ fs"
            "(\<forall>x \<in> set fs. frame_type (snd x) \<in> {''error'', ''typing'', ''text''})" by blast
          moreover obtain gs where "sent s2 = sent s @ gs" "(\<forall>x \<in> set gs. frame_type (snd x) \<in> {''transcription''})"
            using s2(1) by blast
          ultimately have "sent s3 = sent s @ (gs @ fs) \<and>
              (\<forall>x \<in> set (gs @ fs). frame_type (snd x) \<in> {''error'', ''transcription'', ''typing'', ''text''})"
            by auto
          then show ?thesis unfolding res Inr by (simp only: sum.case) blast
        qed
      qed
    qed
  qed
qed

lemma handle_text_not_unknown:
  "handle_text_message e cfg chunks sid message s = Inr s' \<Longrightarrow>
     \<exists>fs. sent s' = sent s @ fs \<and> (\<forall>x \<in> set fs. snd x \<noteq> Error ''Unknown message type'' (now e))"
  by (auto simp: handle_text_message_def dict_get_def Let_def send_typing_indicator_def
      send_error_def send_message_def split: prod.splits option.splits json.splits if_splits)

lemma send_error_not_unknown:
  "msg \<noteq> ''Unknown message type'' \<Longrightarrow>
     \<exists>fs. sent (send_error e sid msg s) = sent s @ fs \<and>
          (\<forall>x \<in> set fs. snd x \<noteq> Error ''Unknown message type'' (now e))"
  by (auto simp: send_error_def send_message_def split: option.splits)

lemma srv1_active: "active_connections srv1 ''s1'' = Some 7"
  by (simp add: srv1_def connect_def)

lemma srv1_meta:
  "session_metadata srv1 ''s1'' =
     Some \<lparr>connected_at = ''2024-01-01T00:00:00'', language = ''en'', message_count = 0\<rparr>"
  by (simp add: srv1_def connect_def env1_def)

lemma srv1_sent: "sent srv1 = []"
  by (simp add: srv1_def connect_def srv0_def)

lemma search_refunds: "simple_search kb1 ''refunds'' 3 = [kb1 ! 1]"
  by code_simp

lemma strip_refunds: "str_strip ''refunds'' = ''refunds''"
  by code_simp

lemma query_refunds:
  "query default_config backend_up kb1 ''refunds'' ''en'' =
     ([grounded_call default_config [kb1 ! 1] ''refunds''], ''We are open 24/7.'',
      [\<lparr>page_content = ''Refunds take 5 days'', metadata = [(''source'', ''faq.txt'')]\<rparr>])"
proof -
  have st: "str_strip '' We are open 24/7. '' = ''We are open 24/7.''" by code_simp
  show ?thesis
    by (simp add: query_cases search_refunds backend_up_def st) (simp add: kb1_def)
qed

lemma audio_run:
  "sent (handle_audio_message env1 default_config kb1 ''s1''
     [(''want_audio_response'', JBool True), (''audio_data'', JStr ''UklGRg=='')] srv1) =
   [(7, Transcription ''refunds'' ''en''), (7, Typing True), (7, Typing False),
    (7, TextResponse ''We are open 24/7.'' [(''faq.txt'', ''Refunds take 5 days...'')]
          (now env1) (processing_time_ms env1))]"
proof -
  have st: "str_strip ''refunds '' = ''refunds''" by code_simp
  have tr: "transcribe_audio env1 ''UklGRg=='' None = (''refunds'', ''en'')"
    by (simp add: transcribe_audio_def env1_def st)
  have g: "generate env1 = backend_up" by (simp add: env1_def)
  have b: "base64_to_audio env1 (JStr ''UklGRg=='') = Inr ''UklGRg==''"
    by (simp add: base64_to_audio_def env1_def)
  have en: "get_session_language srv1 ''s1'' = ''en''"
    by (simp add: get_session_language_def srv1_meta)
  have s2a: "active_connections (send_message ''s1'' (Transcription ''refunds'' ''en'') srv1) ''s1'' = Some 7"
    by (simp add: send_message_def srv1_active)
  have s2l: "get_session_language (send_message ''s1'' (Transcription ''refunds'' ''en'') srv1) ''s1'' = ''en''"
    by (simp add: send_message_def srv1_active get_session_language_def srv1_meta)
  have s2s: "sent (send_message ''s1'' (Transcription ''refunds'' ''en'') srv1) = [(7, Transcription ''refunds'' ''en'')]"
    by (simp add: send_message_def srv1_active srv1_sent)
  have h2: "map_of [(''content'', JStr ''refunds'')] ''content'' = Some (JStr ''refunds'')"
    by simp
  have h3: "str_strip ''refunds'' \<noteq> []"
    by (simp add: strip_refunds)
  from handle_text_sent [OF s2a h2 h3, of env1 default_config kb1]
  obtain s' where s': "handle_text_message env1 default_config kb1 ''s1''
        [(''content'', JStr ''refunds'')] (send_message ''s1'' (Transcription ''refunds'' ''en'') srv1) = Inr s'"
     "sent s' = [(7, Transcription ''refunds'' ''en''), (7, Typing True), (7, Typing False),
        (7, TextResponse ''We are open 24/7.'' [(''faq.txt'', ''Refunds take 5 days...'')]
          (now env1) (processing_time_ms env1))]"
    by (auto simp: s2l s2s strip_refunds g query_refunds source_records_def)
  show ?thesis
    by (simp add: handle_audio_message_def dict_get_def b en tr s' send_audio_response_def)
qed

section \<open>Claims about the session registry\<close>

text \<open>
  C8. Disconnecting an id that is in neither dictionary leaves the whole state as it is;
  disconnecting twice is the same as disconnecting once; and the entries (transport
  handle, and session record with language and message count) of every other session id
  are as before. No frame is sent. The operation has no failing branch.
\<close>

theorem disconnect_idempotent:
  "(sid \<notin> dom (active_connections s) \<and> sid \<notin> dom (session_metadata s) \<longrightarrow>
      disconnect sid s = s) \<and>
   disconnect sid (disconnect sid s) = disconnect sid s \<and>
   (other \<noteq> sid \<longrightarrow>
      active_connections (disconnect sid s) other = active_connections s other \<and>
      session_metadata (disconnect sid s) other = session_metadata s other) \<and>
   sent (disconnect sid s) = sent s"
  by (simp add: disconnect_def Let_def)

text \<open>
  The theorem at the registry \<open>srv1\<close> with the one session \<^verbatim>\<open>s1\<close>: disconnecting the
  unknown \<^verbatim>\<open>s2\<close>, and disconnecting \<^verbatim>\<open>s1\<close> twice.
\<close>

theorem disconnect_idempotent_witness:
  "''s2'' \<notin> dom (active_connections srv1) \<and> ''s2'' \<notin> dom (session_metadata srv1) \<and>
   disconnect ''s2'' srv1 = srv1 \<and>
   ''s1'' \<noteq> ''s2'' \<and>
   active_connections (disconnect ''s2'' srv1) ''s1'' = Some 7 \<and>
   session_metadata (disconnect ''s2'' srv1) ''s1'' = session_metadata srv1 ''s1'' \<and>
   disconnect ''s1'' (disconnect ''s1'' srv1) = disconnect ''s1'' srv1 \<and>
   active_connections (disconnect ''s1'' srv1) ''s1'' = None"
proof -
  have d: "''s2'' \<notin> dom (active_connections srv1) \<and> ''s2'' \<notin> dom (session_metadata srv1)"
    by (simp add: srv1_def connect_def srv0_def)
  have ne: "''s1'' \<noteq> ''s2''" by simp
  have n: "active_connections (disconnect ''s1'' srv1) ''s1'' = None"
    by (simp add: disconnect_def Let_def domIff)
  from d ne disconnect_idempotent [of "''s2''" srv1 "''s1''"]
  have a: "disconnect ''s2'' srv1 = srv1"
    and b: "active_connections (disconnect ''s2'' srv1) ''s1'' = active_connections srv1 ''s1''"
    and c: "session_metadata (disconnect ''s2'' srv1) ''s1'' = session_metadata srv1 ''s1''"
    by blast+
  from disconnect_idempotent [of "''s1''" srv1 "''s2''"]
  have i: "disconnect ''s1'' (disconnect ''s1'' srv1) = disconnect ''s1'' srv1"
    by blast
  from d ne n a b c i srv1_active show ?thesis by simp
qed

section \<open>Claims about the message router\<close>

text \<open>
  C4. For a registered session, a text frame (type \<^verbatim>\<open>text\<close>, or no type) whose content
  is the empty string yields exactly one frame, the error \<^verbatim>\<open>Empty message\<close>; the
  session records, hence the message counter, are unchanged, and neither the retrieval
  engine nor the generation backend is called.
\<close>

theorem empty_text_rejected:
  "active_connections s sid = Some ws \<Longrightarrow>
   dict_get message ''type'' (JStr ''text'') = JStr ''text'' \<Longrightarrow>
   map_of message ''content'' = Some (JStr []) \<Longrightarrow>
     process_message e cfg chunks sid (Some (JObj message)) s =
       s\<lparr>sent := sent s @ [(ws, Error ''Empty message'' (now e))]\<rparr> \<and>
     session_metadata (process_message e cfg chunks sid (Some (JObj message)) s) =
       session_metadata s \<and>
     rag_queries (process_message e cfg chunks sid (Some (JObj message)) s) = rag_queries s \<and>
     backend_calls (process_message e cfg chunks sid (Some (JObj message)) s) = backend_calls s"
  by (simp add: process_message_def handle_text_message_def dict_get_def str_strip_def
      send_error_active)

text \<open>The theorem at the session \<^verbatim>\<open>s1\<close> of \<open>srv1\<close>.\<close>

theorem empty_text_rejected_witness:
  "active_connections srv1 ''s1'' = Some 7 \<and>
   dict_get [(''type'', JStr ''text''), (''content'', JStr [])] ''type'' (JStr ''text'')
     = JStr ''text'' \<and>
   map_of [(''type'', JStr ''text''), (''content'', JStr [])] ''content'' = Some (JStr []) \<and>
   sent (process_message env1 default_config kb1 ''s1''
           (Some (JObj [(''type'', JStr ''text''), (''content'', JStr [])])) srv1)
     = [(7, Error ''Empty message'' (now env1))] \<and>
   session_metadata (process_message env1 default_config kb1 ''s1''
           (Some (JObj [(''type'', JStr ''text''), (''content'', JStr [])])) srv1)
     = session_metadata srv1 \<and>
   rag_queries (process_message env1 default_config kb1 ''s1''
           (Some (JObj [(''type'', JStr ''text''), (''content'', JStr [])])) srv1)
     = rag_queries srv1"
proof -
  let ?r = "process_message env1 default_config kb1 ''s1''
           (Some (JObj [(''type'', JStr ''text''), (''content'', JStr [])])) srv1"
  have h2: "dict_get [(''type'', JStr ''text''), (''content'', JStr [])] ''type'' (JStr ''text'')
     = JStr ''text''"
    by (simp add: dict_get_def)
  have h3: "map_of [(''type'', JStr ''text''), (''content'', JStr [])] ''content'' = Some (JStr [])"
    by simp
  from empty_text_rejected [OF srv1_active h2 h3, of env1 default_config kb1]
  have a: "?r = srv1\<lparr>sent := sent srv1 @ [(7, Error ''Empty message'' (now env1))]\<rparr>"
    and b: "session_metadata ?r = session_metadata srv1"
    and c: "rag_queries ?r = rag_queries srv1"
    by blast+
  have d: "sent ?r = [(7, Error ''Empty message'' (now env1))]"
    unfolding a by (simp add: srv1_sent)
  from srv1_active h2 h3 b c d show ?thesis by simp
qed

text \<open>
  C5. For a registered session, a language frame with a code in the configured list sets
  the session's language to the code and sends the \<^verbatim>\<open>system\<close> acknowledgement; with a
  code outside the list it sends the error \<^verbatim>\<open>Unsupported language\<close> and changes nothing
  else, so the session's language is as before.
\<close>

theorem language_change:
  "active_connections s sid = Some ws \<Longrightarrow>
   session_metadata s sid = Some m \<Longrightarrow>
   map_of message ''type'' = Some (JStr ''language'') \<Longrightarrow>
   map_of message ''language'' = Some (JStr code) \<Longrightarrow>
     (code \<in> set (languages cfg) \<longrightarrow>
        process_message e cfg chunks sid (Some (JObj message)) s =
          s\<lparr>session_metadata := (session_metadata s)(sid \<mapsto> m\<lparr>language := code\<rparr>),
            sent := sent s @ [(ws, System (''Language changed to '' @ code) code)]\<rparr> \<and>
        get_session_language (process_message e cfg chunks sid (Some (JObj message)) s) sid
          = code) \<and>
     (code \<notin> set (languages cfg) \<longrightarrow>
        process_message e cfg chunks sid (Some (JObj message)) s =
          s\<lparr>sent := sent s @ [(ws, Error ''Unsupported language'' (now e))]\<rparr> \<and>
        get_session_language (process_message e cfg chunks sid (Some (JObj message)) s) sid
          = get_session_language s sid)"
  by (simp add: process_message_def handle_language_change_def dict_get_def
      send_error_active send_message_def set_session_language_def get_session_language_def)

text \<open>
  The theorem at the session \<^verbatim>\<open>s1\<close> of \<open>srv1\<close> under the default configuration, with
  the supported code \<^verbatim>\<open>fr\<close> and the unsupported code \<^verbatim>\<open>xx\<close>.
\<close>

theorem language_change_witness:
  "active_connections srv1 ''s1'' = Some 7 \<and>
   ''fr'' \<in> set (languages default_config) \<and>
   ''xx'' \<notin> set (languages default_config) \<and>
   get_session_language srv1 ''s1'' = ''en'' \<and>
   get_session_language
     (process_message env1 default_config kb1 ''s1''
        (Some (JObj [(''type'', JStr ''language''), (''language'', JStr ''fr'')])) srv1) ''s1''
     = ''fr'' \<and>
   sent (process_message env1 default_config kb1 ''s1''
        (Some (JObj [(''type'', JStr ''language''), (''language'', JStr ''fr'')])) srv1)
     = [(7, System ''Language changed to fr'' ''fr'')] \<and>
   get_session_language
     (process_message env1 default_config kb1 ''s1''
        (Some (JObj [(''type'', JStr ''language''), (''language'', JStr ''xx'')])) srv1) ''s1''
     = ''en'' \<and>
   sent (process_message env1 default_config kb1 ''s1''
        (Some (JObj [(''type'', JStr ''language''), (''language'', JStr ''xx'')])) srv1)
     = [(7, Error ''Unsupported language'' (now env1))]"
proof -
  let ?fr = "process_message env1 default_config kb1 ''s1''
        (Some (JObj [(''type'', JStr ''language''), (''language'', JStr ''fr'')])) srv1"
  let ?xx = "process_message env1 default_config kb1 ''s1''
        (Some (JObj [(''type'', JStr ''language''), (''language'', JStr ''xx'')])) srv1"
  have fr: "''fr'' \<in> set (languages default_config)" by (simp add: default_config_def)
  have xx: "''xx'' \<notin> set (languages default_config)" by (simp add: default_config_def)
  have t: "map_of [(''type'', JStr ''language''), (''language'', JStr c)] ''type''
             = Some (JStr ''language'')" for c
    by simp
  have l: "map_of [(''type'', JStr ''language''), (''language'', JStr c)] ''language''
             = Some (JStr c)" for c
    by simp
  have en: "get_session_language srv1 ''s1'' = ''en''"
    by (simp add: get_session_language_def srv1_meta)
  from fr language_change [OF srv1_active srv1_meta t l, of "''fr''" default_config env1 kb1]
  have f1: "?fr = srv1\<lparr>session_metadata := (session_metadata srv1)(''s1'' \<mapsto>
                \<lparr>connected_at = ''2024-01-01T00:00:00'', language = ''en'', message_count = 0\<rparr>
                \<lparr>language := ''fr''\<rparr>),
              sent := sent srv1 @ [(7, System (''Language changed to '' @ ''fr'') ''fr'')]\<rparr>"
    and f2: "get_session_language ?fr ''s1'' = ''fr''"
    by blast+
  from xx language_change [OF srv1_active srv1_meta t l, of "''xx''" default_config env1 kb1]
  have x1: "?xx = srv1\<lparr>sent := sent srv1 @ [(7, Error ''Unsupported language'' (now env1))]\<rparr>"
    and x2: "get_session_language ?xx ''s1'' = get_session_language srv1 ''s1''"
    by blast+
  have f3: "sent ?fr = [(7, System ''Language changed to fr'' ''fr'')]"
    unfolding f1 by (simp add: srv1_sent)
  have x3: "sent ?xx = [(7, Error ''Unsupported language'' (now env1))]"
    unfolding x1 by (simp add: srv1_sent)
  from srv1_active fr xx en f2 f3 x2 x3 show ?thesis by simp
qed

text \<open>
  C7. For a registered session and a content that is not blank, the text handler sends
  the two typing frames and then one text response. Its source records are at most two,
  and the \<open>i\<close>-th record carries the source name of the \<open>i\<close>-th chunk the search found and,
  as excerpt, the first 150 characters of that chunk's content followed by three dots.
\<close>

theorem text_response_sources:
  "active_connections s sid = Some ws \<Longrightarrow>
   map_of message ''content'' = Some (JStr c) \<Longrightarrow>
   str_strip c \<noteq> [] \<Longrightarrow>
     (\<exists>s' answer recs.
        handle_text_message e cfg chunks sid message s = Inr s' \<and>
        sent s' = sent s @
          [(ws, Typing True), (ws, Typing False),
           (ws, TextResponse answer recs (now e) (processing_time_ms e))] \<and>
        length recs \<le> 2 \<and>
        (\<forall>i < length recs.
           recs ! i = (source (simple_search chunks (str_strip c) 3 ! i),
                       take 150 (content (simple_search chunks (str_strip c) 3 ! i)) @ ''...'')))"
proof -
  assume a: "active_connections s sid = Some ws"
    and m: "map_of message ''content'' = Some (JStr c)"
    and c: "str_strip c \<noteq> []"
  let ?q = "query cfg (generate e) chunks (str_strip c) (get_session_language s sid)"
  from handle_text_sent [OF a m c, of e cfg chunks]
  obtain s' where s': "handle_text_message e cfg chunks sid message s = Inr s'"
    "sent s' = sent s @
       [(ws, Typing True), (ws, Typing False),
        (ws, TextResponse (fst (snd ?q)) (source_records (snd (snd ?q)))
               (now e) (processing_time_ms e))]"
    by blast
  have "\<forall>i < length (source_records (snd (snd ?q))).
          source_records (snd (snd ?q)) ! i =
            (source (simple_search chunks (str_strip c) 3 ! i),
             take 150 (content (simple_search chunks (str_strip c) 3 ! i)) @ ''...'')"
    using source_records_nth [OF query_docs] by blast
  with s' length_source_records show ?thesis by blast
qed

text \<open>
  The theorem at the session \<^verbatim>\<open>s1\<close> of \<open>srv1\<close> and the question \<^verbatim>\<open>refunds\<close>, which
  matches one chunk of \<open>kb1\<close>.
\<close>

theorem text_response_sources_witness:
  "active_connections srv1 ''s1'' = Some 7 \<and>
   map_of [(''content'', JStr ''refunds'')] ''content'' = Some (JStr ''refunds'') \<and>
   str_strip ''refunds'' \<noteq> [] \<and>
   source_records (snd (snd (query default_config backend_up kb1 ''refunds'' ''en'')))
     = [(''faq.txt'', ''Refunds take 5 days...'')] \<and>
   (\<exists>s' answer recs.
      handle_text_message env1 default_config kb1 ''s1'' [(''content'', JStr ''refunds'')] srv1
        = Inr s' \<and>
      sent s' = sent srv1 @
        [(7, Typing True), (7, Typing False),
         (7, TextResponse answer recs (now env1) (processing_time_ms env1))] \<and>
      length recs \<le> 2 \<and>
      (\<forall>i < length recs.
         recs ! i = (source (simple_search kb1 ''refunds'' 3 ! i),
                     take 150 (content (simple_search kb1 ''refunds'' 3 ! i)) @ ''...'')))"
proof -
  have h2: "map_of [(''content'', JStr ''refunds'')] ''content'' = Some (JStr ''refunds'')"
    by simp
  have h3: "str_strip ''refunds'' \<noteq> []"
    by (simp add: strip_refunds)
  have ev: "source_records (snd (snd (query default_config backend_up kb1 ''refunds'' ''en'')))
     = [(''faq.txt'', ''Refunds take 5 days...'')]"
    by (simp add: query_refunds source_records_def)
  from text_response_sources [OF srv1_active h2 h3, of env1 default_config kb1]
  have "\<exists>s' answer recs.
      handle_text_message env1 default_config kb1 ''s1'' [(''content'', JStr ''refunds'')] srv1
        = Inr s' \<and>
      sent s' = sent srv1 @
        [(7, Typing True), (7, Typing False),
         (7, TextResponse answer recs (now env1) (processing_time_ms env1))] \<and>
      length recs \<le> 2 \<and>
      (\<forall>i < length recs.
         recs ! i = (source (simple_search kb1 ''refunds'' 3 ! i),
                     take 150 (content (simple_search kb1 ''refunds'' 3 ! i)) @ ''...''))"
    by (simp only: strip_refunds)
  with srv1_active h2 h3 ev show ?thesis by blast
qed

text \<open>
  C9. The audio-response step changes nothing: the audio handler ends in the same state
  whether the frame asks for an audio response or not, and every frame it sends has one
  of the types \<^verbatim>\<open>error\<close>, \<^verbatim>\<open>transcription\<close>, \<^verbatim>\<open>typing\<close> and \<^verbatim>\<open>text\<close>; no audio reply
  is among them.
\<close>

theorem audio_response_stub:
  "send_audio_response sid lang s = s \<and>
   handle_audio_message e cfg chunks sid ((''want_audio_response'', JBool True) # message) s =
     handle_audio_message e cfg chunks sid ((''want_audio_response'', JBool False) # message) s \<and>
   (\<exists>fs. sent (handle_audio_message e cfg chunks sid
                  ((''want_audio_response'', JBool True) # message) s) = sent s @ fs \<and>
         (\<forall>x \<in> set fs. frame_type (snd x) \<in> {''error'', ''transcription'', ''typing'', ''text''}))"
proof -
  have "handle_audio_message e cfg chunks sid ((''want_audio_response'', JBool True) # message) s =
     handle_audio_message e cfg chunks sid ((''want_audio_response'', JBool False) # message) s"
    by (simp add: handle_audio_message_def dict_get_def send_audio_response_def Let_def
        split: sum.splits prod.splits)
  then show ?thesis
    using handle_audio_types [of e cfg chunks sid "(''want_audio_response'', JBool True) # message" s]
    by (simp add: send_audio_response_def)
qed

text \<open>
  The theorem at an audio frame that reaches the audio-response step: the transcription
  succeeds, the text query is answered, and the frames sent are the transcription, the
  typing frames and the text response.
\<close>

theorem audio_response_stub_witness:
  "handle_audio_message env1 default_config kb1 ''s1''
     [(''want_audio_response'', JBool True), (''audio_data'', JStr ''UklGRg=='')] srv1 =
   handle_audio_message env1 default_config kb1 ''s1''
     [(''want_audio_response'', JBool False), (''audio_data'', JStr ''UklGRg=='')] srv1 \<and>
   sent (handle_audio_message env1 default_config kb1 ''s1''
     [(''want_audio_response'', JBool True), (''audio_data'', JStr ''UklGRg=='')] srv1) =
     [(7, Transcription ''refunds'' ''en''), (7, Typing True), (7, Typing False),
      (7, TextResponse ''We are open 24/7.'' [(''faq.txt'', ''Refunds take 5 days...'')]
            (now env1) (processing_time_ms env1))] \<and>
   (\<exists>fs. sent (handle_audio_message env1 default_config kb1 ''s1''
                  [(''want_audio_response'', JBool True), (''audio_data'', JStr ''UklGRg=='')] srv1)
           = sent srv1 @ fs \<and>
         (\<forall>x \<in> set fs. frame_type (snd x) \<in> {''error'', ''transcription'', ''typing'', ''text''}))"
  using audio_run
    audio_response_stub [of "''s1''" "''en''" srv1 env1 default_config kb1
      "[(''audio_data'', JStr ''UklGRg=='')]"]
  by blast

text \<open>
  C10. A decoded JSON object without the key \<^verbatim>\<open>type\<close> is handled by the text handler,
  exactly as the same object with the type \<^verbatim>\<open>text\<close>; none of the frames sent for it is
  the error \<^verbatim>\<open>Unknown message type\<close>.
\<close>

theorem missing_type_is_text:
  "map_of message ''type'' = None \<Longrightarrow>
     process_message e cfg chunks sid (Some (JObj message)) s =
       (case handle_text_message e cfg chunks sid message s of
          Inl err \<Rightarrow> send_error e sid ''Internal server error'' s
        | Inr s' \<Rightarrow> s') \<and>
     process_message e cfg chunks sid (Some (JObj message)) s =
       process_message e cfg chunks sid (Some (JObj ((''type'', JStr ''text'') # message))) s \<and>
     (\<exists>fs. sent (process_message e cfg chunks sid (Some (JObj message)) s) = sent s @ fs \<and>
           (\<forall>x \<in> set fs. snd x \<noteq> Error ''Unknown message type'' (now e)))"
proof -
  assume t: "map_of message ''type'' = None"
  have a: "process_message e cfg chunks sid (Some (JObj message)) s =
       (case handle_text_message e cfg chunks sid message s of
          Inl err \<Rightarrow> send_error e sid ''Internal server error'' s
        | Inr s' \<Rightarrow> s')"
    using t by (simp add: process_message_def dict_get_def)
  have b: "process_message e cfg chunks sid (Some (JObj ((''type'', JStr ''text'') # message))) s =
       (case handle_text_message e cfg chunks sid message s of
          Inl err \<Rightarrow> send_error e sid ''Internal server error'' s
        | Inr s' \<Rightarrow> s')"
    by (simp add: process_message_def handle_text_message_def dict_get_def)
  have c: "\<exists>fs. sent (process_message e cfg chunks sid (Some (JObj message)) s) = sent s @ fs \<and>
           (\<forall>x \<in> set fs. snd x \<noteq> Error ''Unknown message type'' (now e))"
  proof (cases "handle_text_message e cfg chunks sid message s")
    case (Inl err)
    then show ?thesis
      using send_error_not_unknown [of "''Internal server error''" e sid s] by (simp add: a)
  next
    case (Inr s')
    then show ?thesis
      using handle_text_not_unknown [OF Inr] by (simp add: a)
  qed
  from a b c show ?thesis by simp
qed

text \<open>The theorem at an object that holds a content and no type.\<close>

theorem missing_type_is_text_witness:
  "map_of [(''content'', JStr ''refunds'')] ''type'' = None \<and>
   process_message env1 default_config kb1 ''s1''
     (Some (JObj [(''content'', JStr ''refunds'')])) srv1 =
   process_message env1 default_config kb1 ''s1''
     (Some (JObj [(''type'', JStr ''text''), (''content'', JStr ''refunds'')])) srv1 \<and>
   (\<exists>fs. sent (process_message env1 default_config kb1 ''s1''
                  (Some (JObj [(''content'', JStr ''refunds'')])) srv1) = sent srv1 @ fs \<and>
         (\<forall>x \<in> set fs. snd x \<noteq> Error ''Unknown message type'' (now env1)))"
proof -
  have h: "map_of [(''content'', JStr ''refunds'')] ''type'' = None" by simp
  from h missing_type_is_text [OF h, of env1 default_config kb1 "''s1''" srv1]
  show ?thesis by blast
qed

end
